theory Spec2Isabelle
  imports Main "HOL-Library.Word"
begin

unbundle bit_operations_syntax

section \<open>Bytes, little-endian integers and Go results\<close>

type_synonym byte = "8 word"
type_synonym u32 = "32 word"
type_synonym u64 = "64 word"

text \<open>
  \<open>binary.LittleEndian\<close>: the first byte is the least significant one.
\<close>

fun le_nat :: "byte list \<Rightarrow> nat" where
  "le_nat [] = 0"
| "le_nat (b # bs) = unat b + 256 * le_nat bs"

definition le_u32 :: "byte list \<Rightarrow> u32" where
  "le_u32 bs = word_of_nat (le_nat (take 4 bs))"

definition le_u64 :: "byte list \<Rightarrow> u64" where
  "le_u64 bs = word_of_nat (le_nat (take 8 bs))"

text \<open>
  A Go call either panics (integer division by zero, slice bounds out of range) or
  returns. Heap allocation (\<open>make\<close>) is taken to succeed.
\<close>

datatype 'a go = Panic | Return 'a

section \<open>NTFS timestamps (\<open>parseNTFSTime\<close>)\<close>

text \<open>
  \<open>time.Time{}\<close> is \<open>ZeroTime\<close>; \<open>time.Unix(s, 0).UTC()\<close> is \<open>UnixUTC s\<close>.
\<close>

datatype go_time = ZeroTime | UnixUTC int

definition parseNTFSTime :: "byte list \<Rightarrow> go_time" where
  "parseNTFSTime data =
     (if length data < 8 then ZeroTime
      else let ntfsTime = le_u64 data in
        if ntfsTime = 0 then ZeroTime
        else UnixUTC (sint (ntfsTime div 10000000 - 11644473600)))"

section \<open>The image (\<open>EWFImage\<close> of package \<open>ewf\<close>)\<close>

text \<open>
  The errors the package builds with \<open>fmt.Errorf\<close>, one constructor per message;
  a constructor with an \<open>error\<close> argument wraps its cause (\<open>%w\<close>).
\<close>

datatype error =
    ErrNoDiskInfo
  | ErrChunkNotFound u64
  | ErrChunkBeyondFile u64
  | ErrChunkData
  | ErrDecompress
  | ErrReadChunk u64 error
  | ErrShortChunk
  | ErrExtract u64 u64 error
  | ErrReadSector u64 error
  | ErrFileHeader
  | ErrSignature
  | ErrSectionOffset
  | ErrSectionRead
  | ErrSectionSize
  | ErrSectionNext
  | ErrSectionType
  | ErrInitialSection error
  | ErrSection error
  | ErrNoDisk
  | ErrNoTable
  | ErrTableSize
  | ErrTableRead
  | ErrVolumeRead

text \<open>
  The structs of the package, without their padding fields (\<open>Padding\<close>, \<open>Space\<close> to
  \<open>Space6\<close>), which nothing reads. \<open>SectionCheckSum\<close> and \<open>TableCheckSum\<close> are the
  fields \<open>CheckSum\<close> of \<open>Section\<close> and of \<open>TableSection\<close>.
\<close>

record Section =
  SectionTypeDefinition :: "byte list"
  NextOffset :: u64
  SectionSize :: u64
  SectionCheckSum :: u32

record DiskSMART =
  MediaType :: byte
  ChunkCount :: u32
  ChunkSectors :: u32
  SectorBytes :: u32
  SectorsCount :: u64
  CHScylinders :: u32
  CHSheads :: u32
  CHSsectors :: u32
  MediaFlag :: byte
  PALMVolumeStartSector :: u32
  SMARTLogsStartSector :: u32
  CompressionLevel :: byte
  SectorErrorGranularity :: u32
  SegmentFileSetIdentifier :: "byte list"
  Signature :: "byte list"
  CheckSum :: u32
  Size :: u64
  SectorSize :: u32

record TableEntry =
  ChunkOffset :: u64
  ChunkSize :: u32
  ChunkFlags :: u32

record TableSection =
  EntryNumber :: u32
  TableCheckSum :: u32
  Entries :: "TableEntry list"

type_synonym cache = "u64 \<rightharpoonup> byte list"

text \<open>
  \<open>file'\<close> (the field \<open>file\<close>) is the content of the open segment file;
  \<open>HeaderInfo\<close> tells whether the pointer is set. \<open>Table2Section\<close> has the fields
  of \<open>TableSection\<close>. The locks, the path and the fields of the virtual-machine
  export are left out.
\<close>

record EWFImage =
  file' :: "byte list"
  Sections :: "Section list"
  DiskInfo :: "DiskSMART option"
  Tables :: "TableSection list"
  Tables2 :: "TableSection list"
  HeaderInfo :: bool
  chunkCache :: cache

text \<open>
  What the Go runtime and \<open>compress/zlib\<close> decide: \<open>zlibInflate\<close> is the whole of a
  zlib stream inflated (\<open>None\<close> when the reader reports an error), and
  \<open>mapRangeFirst\<close> is the key that \<open>for k := range m\<close> yields first on a map, an
  order the language leaves unspecified.
\<close>

record runtime =
  zlibInflate :: "byte list \<Rightarrow> byte list option"
  mapRangeFirst :: "cache \<Rightarrow> u64"

definition MaxCacheSize :: nat where
  "MaxCacheSize = 1024"

definition ChunkIsCompressed :: u32 where
  "ChunkIsCompressed = 1"

definition IsChunkCompressed :: "TableEntry \<Rightarrow> bool" where
  "IsChunkCompressed e = (ChunkFlags e AND ChunkIsCompressed \<noteq> 0)"

definition isValidTableEntry :: "TableEntry \<Rightarrow> nat \<Rightarrow> bool" where
  "isValidTableEntry entry fileSize =
     (if ChunkOffset entry = 0 then False
      else if ChunkSize entry = 0 \<or> ChunkSize entry > 1073741824 then False
      else if ChunkOffset entry \<ge> word_of_nat fileSize then False
      else if ChunkOffset entry + ucast (ChunkSize entry) > word_of_nat fileSize then False
      else True)"

text \<open>\<open>io.ReadFull\<close> after a seek: all \<open>n\<close> bytes at \<open>pos\<close>, or an error.\<close>

definition readFull :: "byte list \<Rightarrow> nat \<Rightarrow> nat \<Rightarrow> byte list option" where
  "readFull f pos n = (if pos + n \<le> length f then Some (take n (drop pos f)) else None)"

definition addToCache :: "runtime \<Rightarrow> cache \<Rightarrow> u64 \<Rightarrow> byte list \<Rightarrow> cache" where
  "addToCache rt c chunkNumber chunkData =
     (let c' = (if card (dom c) \<ge> MaxCacheSize then c |` (- {mapRangeFirst rt c}) else c)
      in c'(chunkNumber \<mapsto> chunkData))"

definition decompressChunk :: "runtime \<Rightarrow> byte list \<Rightarrow> error + byte list" where
  "decompressChunk rt compressedData =
     (case zlibInflate rt compressedData of None \<Rightarrow> Inl ErrDecompress | Some d \<Rightarrow> Inr d)"

definition GetChunk :: "runtime \<Rightarrow> byte list \<Rightarrow> TableEntry \<Rightarrow> error + byte list" where
  "GetChunk rt f entry =
     (case readFull f (unat (ChunkOffset entry)) (unat (ChunkSize entry)) of
        None \<Rightarrow> Inl ErrChunkData
      | Some chunkData \<Rightarrow>
          if IsChunkCompressed entry then decompressChunk rt chunkData else Inr chunkData)"

text \<open>
  One of the two table loops of \<open>findAndReadChunk\<close>: in each table the entry whose
  index is the chunk number is tried; an invalid one is skipped, and the first valid
  one decides. \<open>None\<close>: the loop ran through.
\<close>

fun lookupTables ::
  "runtime \<Rightarrow> byte list \<Rightarrow> u64 \<Rightarrow> TableSection list \<Rightarrow> (error + byte list) option" where
  "lookupTables rt f chunkNumber [] = None"
| "lookupTables rt f chunkNumber (table # tables) =
     (if unat chunkNumber < length (Entries table) then
        (let entry = Entries table ! unat chunkNumber in
         if \<not> isValidTableEntry entry (length f) then lookupTables rt f chunkNumber tables
         else if ChunkOffset entry + ucast (ChunkSize entry) > word_of_nat (length f)
           then Some (Inl (ErrChunkBeyondFile chunkNumber))
         else (case GetChunk rt f entry of
                 Inl err \<Rightarrow> Some (Inl (ErrReadChunk chunkNumber err))
               | Inr data \<Rightarrow> Some (Inr data)))
      else lookupTables rt f chunkNumber tables)"

definition findAndReadChunk ::
  "runtime \<Rightarrow> EWFImage \<Rightarrow> u64 \<Rightarrow> EWFImage \<times> byte list \<times> error option" where
  "findAndReadChunk rt e chunkNumber =
     (case chunkCache e chunkNumber of
        Some cachedData \<Rightarrow> (e, cachedData, None)
      | None \<Rightarrow>
          (case lookupTables rt (file' e) chunkNumber (Tables e) of
             Some (Inl err) \<Rightarrow> (e, [], Some err)
           | Some (Inr data) \<Rightarrow>
               (e\<lparr>chunkCache := addToCache rt (chunkCache e) chunkNumber data\<rparr>, data, None)
           | None \<Rightarrow>
               (case lookupTables rt (file' e) chunkNumber (Tables2 e) of
                  Some (Inl err) \<Rightarrow> (e, [], Some err)
                | Some (Inr data) \<Rightarrow>
                    (e\<lparr>chunkCache := addToCache rt (chunkCache e) chunkNumber data\<rparr>, data, None)
                | None \<Rightarrow> (e, [], Some (ErrChunkNotFound chunkNumber)))))"

definition extractSectorFromChunk ::
  "DiskSMART \<Rightarrow> byte list \<Rightarrow> u64 \<Rightarrow> error + byte list" where
  "extractSectorFromChunk d chunkData sectorInChunk =
     (let sectorSize = (ucast (SectorBytes d) :: u64);
          sectorOffset = sectorInChunk * sectorSize
      in if sectorOffset + sectorSize > word_of_nat (length chunkData) then Inl ErrShortChunk
         else Inr (take (unat sectorSize) (drop (unat sectorOffset) chunkData)))"

definition ReadSector ::
  "runtime \<Rightarrow> EWFImage \<Rightarrow> u64 \<Rightarrow> (EWFImage \<times> byte list \<times> error option) go" where
  "ReadSector rt e sectorNumber =
     (case DiskInfo e of
        None \<Rightarrow> Return (e, [], Some ErrNoDiskInfo)
      | Some d \<Rightarrow>
          if ChunkSectors d = 0 then Panic
          else
            (let chunkNumber = sectorNumber div ucast (ChunkSectors d);
                 sectorInChunk = sectorNumber mod ucast (ChunkSectors d)
             in case findAndReadChunk rt e chunkNumber of
                  (e', chunkData, Some err) \<Rightarrow>
                    Return (e', [], Some (ErrReadChunk chunkNumber err))
                | (e', chunkData, None) \<Rightarrow>
                    (case extractSectorFromChunk d chunkData sectorInChunk of
                       Inl err \<Rightarrow>
                         Return (e', [], Some (ErrExtract chunkNumber sectorInChunk err))
                     | Inr sectorData \<Rightarrow> Return (e', sectorData, None))))"

definition GetSectorSize :: "EWFImage \<Rightarrow> u32" where
  "GetSectorSize e = (case DiskInfo e of None \<Rightarrow> 0 | Some d \<Rightarrow> SectorBytes d)"

definition GetSectorCount :: "EWFImage \<Rightarrow> u64" where
  "GetSectorCount e = (case DiskInfo e of None \<Rightarrow> 0 | Some d \<Rightarrow> SectorsCount d)"

definition GetChunkSize :: "EWFImage \<Rightarrow> u32" where
  "GetChunkSize e = (case DiskInfo e of None \<Rightarrow> 0 | Some d \<Rightarrow> ChunkSectors d)"

lemma counter_step: "i < count \<Longrightarrow> unat count - unat (i + 1) < unat count - unat (i :: u64)"
proof -
  assume lt: "i < count"
  have less: "unat i < unat count" using lt by (simp add: word_less_nat_alt)
  moreover have "unat count < 2 ^ LENGTH(64)" by (rule unsigned_less)
  ultimately have "unat i + unat (1 :: u64) < 2 ^ LENGTH(64)" by simp
  then have "unat (i + 1) = unat i + unat (1 :: u64)" by (simp only: unat_add_lem)
  then show ?thesis using less by simp
qed

text \<open>
  The loop of \<open>ReadSectors\<close>, from counter \<open>i\<close> with the bytes gathered so far. On an
  error the gathered bytes are returned with it. The capacity that \<open>ReadSectors\<close>
  asks of \<open>make\<close> for the result has no part in what is returned.
\<close>

function ReadSectors_loop ::
  "runtime \<Rightarrow> EWFImage \<Rightarrow> u64 \<Rightarrow> u64 \<Rightarrow> u64 \<Rightarrow> byte list
     \<Rightarrow> (EWFImage \<times> byte list \<times> error option) go" where
  "ReadSectors_loop rt e startSector count i result =
     (if i < count then
        (case ReadSector rt e (startSector + i) of
           Panic \<Rightarrow> Panic
         | Return (e', sectorData, Some err) \<Rightarrow>
             Return (e', result, Some (ErrReadSector (startSector + i) err))
         | Return (e', sectorData, None) \<Rightarrow>
             ReadSectors_loop rt e' startSector count (i + 1) (result @ sectorData))
      else Return (e, result, None))"
  by pat_completeness auto
termination
  by (relation "measure (\<lambda>(rt, e, startSector, count, i, result). unat count - unat i)")
     (auto simp: counter_step)

declare ReadSectors_loop.simps [simp del]

definition ReadSectors ::
  "runtime \<Rightarrow> EWFImage \<Rightarrow> u64 \<Rightarrow> u64 \<Rightarrow> (EWFImage \<times> byte list \<times> error option) go" where
  "ReadSectors rt e startSector count = ReadSectors_loop rt e startSector count 0 []"

definition ReadBytes ::
  "runtime \<Rightarrow> EWFImage \<Rightarrow> u64 \<Rightarrow> u64 \<Rightarrow> (EWFImage \<times> byte list \<times> error option) go" where
  "ReadBytes rt e offset size' =
     (case DiskInfo e of
        None \<Rightarrow> Return (e, [], Some ErrNoDiskInfo)
      | Some d \<Rightarrow>
          (let sectorSize = (ucast (SectorBytes d) :: u64) in
           if sectorSize = 0 then Panic
           else
             (let startSector = offset div sectorSize;
                  endSector = (offset + size' - 1) div sectorSize;
                  sectorCount = endSector - startSector + 1
              in case ReadSectors rt e startSector sectorCount of
                   Panic \<Rightarrow> Panic
                 | Return (e', allSectorsData, Some err) \<Rightarrow> Return (e', [], Some err)
                 | Return (e', allSectorsData, None) \<Rightarrow>
                     (let startOffset = offset mod sectorSize;
                          endOffset = startOffset + size';
                          endOffset' = (if endOffset > word_of_nat (length allSectorsData)
                                        then word_of_nat (length allSectorsData) else endOffset)
                      in if startOffset \<le> endOffset'
                         then Return (e', take (unat endOffset' - unat startOffset)
                                             (drop (unat startOffset) allSectorsData), None)
                         else Panic))))"

section \<open>Parsing a segment file (\<open>Parse\<close> of package \<open>ewf\<close>)\<close>

definition ascii :: "string \<Rightarrow> byte list" where
  "ascii s = map (\<lambda>c. word_of_nat (of_char c)) s"

text \<open>\<open>bytes.TrimRight(b, "\x00")\<close>\<close>

definition trimRightNul :: "byte list \<Rightarrow> byte list" where
  "trimRightNul bs = rev (dropWhile (\<lambda>b. b = 0) (rev bs))"

definition sectionTypeOf :: "Section \<Rightarrow> byte list" where
  "sectionTypeOf s = trimRightNul (SectionTypeDefinition s)"

text \<open>\<open>binary.Read\<close> of the 76 bytes of a section descriptor.\<close>

definition decodeSection :: "byte list \<Rightarrow> Section" where
  "decodeSection bs =
     \<lparr>SectionTypeDefinition = take 16 bs,
      NextOffset = le_u64 (drop 16 bs),
      SectionSize = le_u64 (drop 24 bs),
      SectionCheckSum = le_u32 (drop 72 bs)\<rparr>"

definition knownSectionTypes :: "byte list list" where
  "knownSectionTypes = map ascii
     [''header'', ''header2'', ''disk'', ''volume'', ''table'', ''table2'',
      ''sectors'', ''next'', ''data'', ''error2'', ''digest'', ''hash'', ''done'']"

definition ReadSection :: "byte list \<Rightarrow> int \<Rightarrow> error + Section" where
  "ReadSection f offset =
     (if offset < 0 \<or> offset \<ge> int (length f) then Inl ErrSectionOffset
      else case readFull f (nat offset) 76 of
        None \<Rightarrow> Inl ErrSectionRead
      | Some bs \<Rightarrow>
          (let section = decodeSection bs in
           if SectionSize section = 0 \<or> SectionSize section > word_of_nat (length f)
             then Inl ErrSectionSize
           else if NextOffset section > word_of_nat (length f) then Inl ErrSectionNext
           else if sectionTypeOf section \<notin> set knownSectionTypes then Inl ErrSectionType
           else Inr section))"

subsection \<open>\<open>ParseVolume\<close>\<close>

text \<open>
  \<open>binary.Read\<close> of a whole \<open>DiskSMART\<close>: 1064 bytes, the fields in the order of the
  struct without padding (the last two, \<open>Size\<close> and \<open>SectorSize\<close>, come after the
  1052 bytes of the section body).
\<close>

definition decodeDiskSMART :: "byte list \<Rightarrow> DiskSMART" where
  "decodeDiskSMART bs =
     \<lparr>MediaType = (case bs of [] \<Rightarrow> 0 | b # _ \<Rightarrow> b),
      ChunkCount = le_u32 (drop 4 bs),
      ChunkSectors = le_u32 (drop 8 bs),
      SectorBytes = le_u32 (drop 12 bs),
      SectorsCount = le_u64 (drop 16 bs),
      CHScylinders = le_u32 (drop 24 bs),
      CHSheads = le_u32 (drop 28 bs),
      CHSsectors = le_u32 (drop 32 bs),
      MediaFlag = (case drop 36 bs of [] \<Rightarrow> 0 | b # _ \<Rightarrow> b),
      PALMVolumeStartSector = le_u32 (drop 40 bs),
      SMARTLogsStartSector = le_u32 (drop 48 bs),
      CompressionLevel = (case drop 52 bs of [] \<Rightarrow> 0 | b # _ \<Rightarrow> b),
      SectorErrorGranularity = le_u32 (drop 56 bs),
      SegmentFileSetIdentifier = take 16 (drop 64 bs),
      Signature = take 5 (drop 1043 bs),
      CheckSum = le_u32 (drop 1048 bs),
      Size = le_u64 (drop 1052 bs),
      SectorSize = le_u32 (drop 1060 bs)\<rparr>"

text \<open>
  The field-by-field reading that \<open>ParseVolume\<close> falls back to: the first 24 bytes
  give the media type to the sector count, the size is computed, the rest stays zero.
\<close>

definition decodeDiskSMART_fields :: "byte list \<Rightarrow> DiskSMART" where
  "decodeDiskSMART_fields bs =
     \<lparr>MediaType = (case bs of [] \<Rightarrow> 0 | b # _ \<Rightarrow> b),
      ChunkCount = le_u32 (drop 4 bs),
      ChunkSectors = le_u32 (drop 8 bs),
      SectorBytes = le_u32 (drop 12 bs),
      SectorsCount = le_u64 (drop 16 bs),
      CHScylinders = 0, CHSheads = 0, CHSsectors = 0, MediaFlag = 0,
      PALMVolumeStartSector = 0, SMARTLogsStartSector = 0, CompressionLevel = 0,
      SectorErrorGranularity = 0, SegmentFileSetIdentifier = replicate 16 0,
      Signature = replicate 5 0, CheckSum = 0,
      Size = le_u64 (drop 16 bs) * ucast (le_u32 (drop 12 bs)),
      SectorSize = 0\<rparr>"

definition ParseVolume :: "byte list \<Rightarrow> nat \<Rightarrow> Section \<Rightarrow> error + DiskSMART" where
  "ParseVolume f currentPos section =
     (case readFull f currentPos (unat (SectionSize section)) of
        None \<Rightarrow> Inl ErrVolumeRead
      | Some sectionData \<Rightarrow>
          (case (case readFull f currentPos 1064 of
                   Some bs \<Rightarrow> Some (decodeDiskSMART bs)
                 | None \<Rightarrow> map_option decodeDiskSMART_fields (readFull f currentPos 24)) of
             None \<Rightarrow> Inl ErrVolumeRead
           | Some disk \<Rightarrow>
               (let disk1 = (if SectorBytes disk = 0 \<or> SectorBytes disk > 8192
                             then disk\<lparr>SectorBytes := 512\<rparr> else disk);
                    disk2 = (if ChunkSectors disk1 = 0 \<or> ChunkSectors disk1 > 65536
                             then disk1\<lparr>ChunkSectors := 64\<rparr> else disk1);
                    disk3 = (if SectorsCount disk2 = 0
                             then (if Size disk2 > 0 \<and> SectorBytes disk2 > 0
                                   then disk2\<lparr>SectorsCount := Size disk2 div ucast (SectorBytes disk2)\<rparr>
                                   else disk2)
                             else disk2);
                    disk4 = (if Size disk3 = 0
                             then disk3\<lparr>Size := SectorsCount disk3 * ucast (SectorBytes disk3)\<rparr>
                             else disk3)
                in Inr disk4)))"

subsection \<open>\<open>ParseTable\<close> and \<open>ParseTable2\<close>\<close>

text \<open>
  One table entry: \<open>binary.Read\<close> of the offset (8 bytes), the size (4 bytes) and the
  flags (4 bytes), one after the other from position \<open>p\<close>.
\<close>

definition readEntry :: "byte list \<Rightarrow> nat \<Rightarrow> TableEntry option" where
  "readEntry d p =
     (case readFull d p 8 of
        None \<Rightarrow> None
      | Some ob \<Rightarrow>
          (case readFull d (p + 8) 4 of
             None \<Rightarrow> None
           | Some sb \<Rightarrow>
               (case readFull d (p + 12) 4 of
                  None \<Rightarrow> None
                | Some fb \<Rightarrow>
                    Some \<lparr>ChunkOffset = le_u64 ob, ChunkSize = le_u32 sb,
                          ChunkFlags = le_u32 fb\<rparr>)))"

lemma counter_step32: "i < count \<Longrightarrow> unat count - unat (i + 1) < unat count - unat (i :: u32)"
proof -
  assume lt: "i < count"
  have less: "unat i < unat count" using lt by (simp add: word_less_nat_alt)
  moreover have "unat count < 2 ^ LENGTH(32)" by (rule unsigned_less)
  ultimately have "unat i + unat (1 :: u32) < 2 ^ LENGTH(32)" by simp
  then have "unat (i + 1) = unat i + unat (1 :: u32)" by (simp only: unat_add_lem)
  then show ?thesis using less by simp
qed

text \<open>
  The entry loops of \<open>ParseTable\<close>: entry \<open>i\<close> is read at \<open>posOf i\<close> of \<open>d\<close> for
  \<open>i < n\<close>, and kept when it is valid for the size of the segment file.
\<close>

function readEntries ::
  "byte list \<Rightarrow> (u32 \<Rightarrow> nat) \<Rightarrow> nat \<Rightarrow> u32 \<Rightarrow> u32 \<Rightarrow> TableEntry list
     \<Rightarrow> error + TableEntry list" where
  "readEntries d posOf fileSize n i entries =
     (if i < n then
        (case readEntry d (posOf i) of
           None \<Rightarrow> Inl ErrTableRead
         | Some entry \<Rightarrow>
             readEntries d posOf fileSize n (i + 1)
               (if isValidTableEntry entry fileSize then entries @ [entry] else entries))
      else Inr entries)"
  by pat_completeness auto
termination
  by (relation "measure (\<lambda>(d, posOf, fileSize, n, i, entries). unat n - unat i)")
     (auto simp: counter_step32)

declare readEntries.simps [simp del]

text \<open>
  The seek before each entry read from the file: \<open>currentPos+24+int64(i*16)\<close>, the
  product taken on \<open>uint32\<close>.
\<close>

definition filePos :: "nat \<Rightarrow> u32 \<Rightarrow> nat" where
  "filePos currentPos i = currentPos + 24 + unat (i * 16)"

text \<open>The entries of the inflated data are read in sequence after its 24-byte header.\<close>

definition streamPos :: "u32 \<Rightarrow> nat" where
  "streamPos i = 24 + 16 * unat i"

definition looksLikeZlib :: "byte list \<Rightarrow> bool" where
  "looksLikeZlib sectionData \<longleftrightarrow>
     length sectionData > 4 \<and> sectionData ! 0 = 0x78 \<and>
     (sectionData ! 1 = 0x01 \<or> sectionData ! 1 = 0x9C \<or> sectionData ! 1 = 0xDA)"

text \<open>
  The three branches of \<open>ParseTable\<close>. The plain one (\<open>else\<close>): padding and
  checksum after the entry count \<open>nb\<close> already read, then \<open>EntryNumber\<close> entries
  from the file.
\<close>

definition ParseTable_plain :: "byte list \<Rightarrow> nat \<Rightarrow> byte list \<Rightarrow> error + TableSection" where
  "ParseTable_plain f currentPos nb =
     (case readFull f (currentPos + 4) 16 of
        None \<Rightarrow> Inl ErrTableRead
      | Some pb \<Rightarrow>
          (case readFull f (currentPos + 20) 4 of
             None \<Rightarrow> Inl ErrTableRead
           | Some cb \<Rightarrow>
               (case readEntries f (filePos currentPos) (length f) (le_u32 nb) 0 [] of
                  Inl err \<Rightarrow> Inl err
                | Inr entries \<Rightarrow>
                    Inr \<lparr>EntryNumber = le_u32 nb, TableCheckSum = le_u32 cb,
                          Entries = entries\<rparr>)))"

text \<open>
  The entry count exceeds what the section holds and the section does not inflate:
  the header is read again and \<open>maxEntries\<close> entries are read from the file.
\<close>

definition ParseTable_capped :: "byte list \<Rightarrow> nat \<Rightarrow> u64 \<Rightarrow> error + TableSection" where
  "ParseTable_capped f currentPos maxEntries =
     (case readFull f currentPos 4 of
        None \<Rightarrow> Inl ErrTableRead
      | Some nb \<Rightarrow>
          (case readFull f (currentPos + 4) 16 of
             None \<Rightarrow> Inl ErrTableRead
           | Some pb \<Rightarrow>
               (case readFull f (currentPos + 20) 4 of
                  None \<Rightarrow> Inl ErrTableRead
                | Some cb \<Rightarrow>
                    (case readEntries f (filePos currentPos) (length f)
                            (ucast maxEntries) 0 [] of
                       Inl err \<Rightarrow> Inl err
                     | Inr entries \<Rightarrow>
                         Inr \<lparr>EntryNumber = le_u32 nb, TableCheckSum = le_u32 cb,
                               Entries = entries\<rparr>))))"

text \<open>The section inflates: header and entries are read from the inflated data.\<close>

definition ParseTable_inflated :: "byte list \<Rightarrow> nat \<Rightarrow> error + TableSection" where
  "ParseTable_inflated decompressedData fileSize =
     (case readFull decompressedData 0 4 of
        None \<Rightarrow> Inl ErrTableRead
      | Some nb \<Rightarrow>
          (case readFull decompressedData 4 16 of
             None \<Rightarrow> Inl ErrTableRead
           | Some pb \<Rightarrow>
               (case readFull decompressedData 20 4 of
                  None \<Rightarrow> Inl ErrTableRead
                | Some cb \<Rightarrow>
                    (case readEntries decompressedData streamPos fileSize (le_u32 nb) 0 [] of
                       Inl err \<Rightarrow> Inl err
                     | Inr entries \<Rightarrow>
                         Inr \<lparr>EntryNumber = le_u32 nb, TableCheckSum = le_u32 cb,
                               Entries = entries\<rparr>))))"

definition ParseTable :: "runtime \<Rightarrow> byte list \<Rightarrow> nat \<Rightarrow> Section \<Rightarrow> error + TableSection" where
  "ParseTable rt f currentPos section =
     (if SectionSize section < 24 then Inl ErrTableSize
      else case readFull f currentPos 4 of
        None \<Rightarrow> Inl ErrTableRead
      | Some nb \<Rightarrow>
          (let maxEntries = (SectionSize section - 24) div 16 in
           if le_u32 nb > ucast maxEntries then
             (case readFull f currentPos (unat (SectionSize section)) of
                None \<Rightarrow> Inl ErrTableRead
              | Some sectionData \<Rightarrow>
                  (case (if looksLikeZlib sectionData then zlibInflate rt sectionData
                         else None) of
                     None \<Rightarrow> ParseTable_capped f currentPos maxEntries
                   | Some decompressedData \<Rightarrow>
                       ParseTable_inflated decompressedData (length f)))
           else ParseTable_plain f currentPos nb))"

subsection \<open>\<open>ParseHeaderSection\<close>\<close>

text \<open>
  Only whether a header string comes back is kept (\<open>Parse\<close> stores nothing else of
  it). The buffer has \<open>SectionSize - 76\<close> bytes on \<open>uint64\<close>: below 76 the length
  wraps around and \<open>make\<close> panics. \<open>file.Read\<close> fills what the file still has and
  fails only at the end of the file.
\<close>

definition ParseHeaderSection :: "runtime \<Rightarrow> byte list \<Rightarrow> nat \<Rightarrow> Section \<Rightarrow> bool go" where
  "ParseHeaderSection rt f currentPos section =
     (if SectionSize section < 76 then Panic
      else
        (let n = unat (SectionSize section - 76);
             got = take n (drop currentPos f)
         in if n > 0 \<and> got = [] then Return False
            else Return (zlibInflate rt (got @ replicate (n - length got) 0) \<noteq> None)))"

subsection \<open>The section scanner\<close>

text \<open>What the \<open>switch\<close> on the section type updates.\<close>

record scan =
  image :: EWFImage
  foundDiskInfo :: bool

text \<open>The \<open>switch\<close>; the flag returned with the state is \<open>foundDone\<close>.\<close>

definition parseByType ::
  "runtime \<Rightarrow> byte list \<Rightarrow> nat \<Rightarrow> Section \<Rightarrow> scan \<Rightarrow> (scan \<times> bool) go" where
  "parseByType rt f currentPos s st =
     (let t = sectionTypeOf s; e = image st in
      if t = ascii ''header'' \<or> t = ascii ''header2'' then
        (case ParseHeaderSection rt f currentPos s of
           Panic \<Rightarrow> Panic
         | Return ok \<Rightarrow>
             Return (if ok then st\<lparr>image := e\<lparr>HeaderInfo := True\<rparr>\<rparr> else st, False))
      else if t = ascii ''disk'' \<or> t = ascii ''volume'' then
        (case ParseVolume f currentPos s of
           Inl err \<Rightarrow> Return (st, False)
         | Inr diskInfo \<Rightarrow>
             Return (st\<lparr>image := e\<lparr>DiskInfo := Some diskInfo\<rparr>, foundDiskInfo := True\<rparr>, False))
      else if t = ascii ''table'' then
        (case ParseTable rt f currentPos s of
           Inl err \<Rightarrow> Return (st, False)
         | Inr table \<Rightarrow> Return (st\<lparr>image := e\<lparr>Tables := Tables e @ [table]\<rparr>\<rparr>, False))
      else if t = ascii ''table2'' then
        (case ParseTable rt f currentPos s of
           Inl err \<Rightarrow> Return (st, False)
         | Inr table2 \<Rightarrow> Return (st\<lparr>image := e\<lparr>Tables2 := Tables2 e @ [table2]\<rparr>\<rparr>, False))
      else if t = ascii ''done'' then Return (st, True)
      else Return (st, False))"

lemma scan_step:
  "lastOffset < next \<Longrightarrow> next < (w :: u64) \<Longrightarrow> unat w - unat next < unat w - unat lastOffset"
  by (simp add: word_less_nat_alt)

text \<open>
  The loop of \<open>Parse\<close>, with the section read last, the offsets seen
  (\<open>processedOffsets\<close>) and the offset of the section read last. It stops on an
  offset seen before, on an offset that does not exceed the last one, and on an
  offset at or beyond the end of the file.
\<close>

function scanSections ::
  "runtime \<Rightarrow> byte list \<Rightarrow> Section \<Rightarrow> u64 set \<Rightarrow> u64 \<Rightarrow> scan \<Rightarrow> (error + scan) go" where
  "scanSections rt f section processedOffsets lastOffset st =
     (if NextOffset section \<in> processedOffsets then Return (Inr st)
      else if NextOffset section \<le> lastOffset then Return (Inr st)
      else if NextOffset section \<ge> word_of_nat (length f) then Return (Inr st)
      else
        (case ReadSection f (sint (NextOffset section)) of
           Inl err \<Rightarrow> Return (Inl (ErrSection err))
         | Inr s \<Rightarrow>
             (case parseByType rt f (nat (sint (NextOffset section)) + 76) s
                     (st\<lparr>image := (image st)\<lparr>Sections := Sections (image st) @ [s]\<rparr>\<rparr>) of
                Panic \<Rightarrow> Panic
              | Return (st', foundDone) \<Rightarrow>
                  if foundDone \<or> NextOffset s = 0 then Return (Inr st')
                  else scanSections rt f s (insert (NextOffset section) processedOffsets)
                         (NextOffset section) st')))"
  by pat_completeness auto
termination
  by (relation "measure (\<lambda>(rt, f, section, processedOffsets, lastOffset, st).
                   unat (word_of_nat (length f) :: u64) - unat lastOffset)")
     (auto simp: scan_step not_le)

declare scanSections.simps [simp del]

definition EVFSignature :: "byte list" where
  "EVFSignature = [0x45, 0x56, 0x46, 0x09, 0x0d, 0x0a, 0xff, 0x00]"

definition Parse :: "runtime \<Rightarrow> EWFImage \<Rightarrow> (error + EWFImage) go" where
  "Parse rt e =
     (let f = file' e in
      case readFull f 0 13 of
        None \<Rightarrow> Return (Inl ErrFileHeader)
      | Some header \<Rightarrow>
          if take 8 header \<noteq> EVFSignature then Return (Inl ErrSignature)
          else
            (case ReadSection f 13 of
               Inl err \<Rightarrow> Return (Inl (ErrInitialSection err))
             | Inr section \<Rightarrow>
                 (case scanSections rt f section {13} 13
                         \<lparr>image = e\<lparr>Sections := Sections e @ [section]\<rparr>,
                          foundDiskInfo = False\<rparr> of
                    Panic \<Rightarrow> Panic
                  | Return (Inl err) \<Rightarrow> Return (Inl err)
                  | Return (Inr st) \<Rightarrow>
                      if \<not> foundDiskInfo st then Return (Inl ErrNoDisk)
                      else if Tables (image st) = [] \<and> Tables2 (image st) = []
                        then Return (Inl ErrNoTable)
                      else Return (Inr (image st)))))"

section \<open>The scanner and the table parser of package \<open>internal\<close>\<close>

record SectionWithAddress = Section +
  Address :: int







section \<open>A small image for concrete runs\<close>

text \<open>
  Two sectors of two bytes in one chunk of four bytes stored at file offset 1;
  \<open>img1\<close> is \<open>img0\<close> after chunk 0 has been cached.
\<close>

definition rt0 :: runtime where
  "rt0 = \<lparr>zlibInflate = (\<lambda>b. None), mapRangeFirst = (\<lambda>c. 0)\<rparr>"




definition img_empty :: EWFImage where
  "img_empty = \<lparr>file' = [], Sections = [], DiskInfo = None, Tables = [], Tables2 = [],
     HeaderInfo = False, chunkCache = Map.empty\<rparr>"

section \<open>The cache policy of the specification, and a full cache\<close>

text \<open>
  The specification's eviction rule, in its words: the victim is the least recently
  used entry, ties broken by insertion order. \<open>lastUse\<close> and \<open>inserted\<close> give the
  times of the last use and of the insertion of each cached chunk.
\<close>

definition spec_lru_victim :: "(u64 \<Rightarrow> nat) \<Rightarrow> (u64 \<Rightarrow> nat) \<Rightarrow> cache \<Rightarrow> u64 \<Rightarrow> bool" where
  "spec_lru_victim lastUse inserted c k \<longleftrightarrow>
     k \<in> dom c \<and>
     (\<forall>k' \<in> dom c. k' \<noteq> k \<longrightarrow>
        lastUse k < lastUse k' \<or> (lastUse k = lastUse k' \<and> inserted k < inserted k'))"

text \<open>
  A cache holding the chunks 0 to 1023, and a runtime whose map iteration starts at
  chunk 1023.
\<close>

definition full_cache :: cache where
  "full_cache = (\<lambda>k. if k < 1024 then Some [] else None)"

definition rt_last :: runtime where
  "rt_last = \<lparr>zlibInflate = (\<lambda>b. None), mapRangeFirst = (\<lambda>c. 1023)\<rparr>"


section \<open>Segment data for concrete runs\<close>






definition tbl0_file :: "byte list" where
  "tbl0_file =
     [2, 0, 0, 0,  0, 0, 0, 0, 0, 0, 0, 0, 0, 0, 0, 0, 0, 0, 0, 0,  0, 0, 0, 0,
      0, 0, 0, 0, 0, 0, 0, 0,  5, 0, 0, 0,  1, 0, 0, 0,
      100, 0, 0, 0, 0, 0, 0, 0,  7, 0, 0, 0,  0, 0, 0, 0] @ replicate 64 0"

definition tbl_section :: Section where
  "tbl_section = \<lparr>SectionTypeDefinition = ascii ''table'' @ replicate 11 0,
     NextOffset = 0, SectionSize = 56, SectionCheckSum = 0\<rparr>"


text \<open>
  A segment file of 89 bytes: the 13-byte file header and one section descriptor of
  type \<open>header\<close> and size 76 whose next offset is its own offset 13.
\<close>

definition selflink_file :: "byte list" where
  "selflink_file =
     [0x45, 0x56, 0x46, 0x09, 0x0d, 0x0a, 0xff, 0x00,  1,  1, 0,  0, 0,
      104, 101, 97, 100, 101, 114, 0, 0, 0, 0, 0, 0, 0, 0, 0, 0,
      13, 0, 0, 0, 0, 0, 0, 0,
      76, 0, 0, 0, 0, 0, 0, 0,
      0, 0, 0, 0, 0, 0, 0, 0, 0, 0, 0, 0, 0, 0, 0, 0, 0, 0, 0, 0, 0, 0,
      0, 0, 0, 0, 0, 0, 0, 0, 0, 0, 0, 0, 0, 0, 0, 0, 0, 0, 0, 0, 0, 0]"

definition selflink_section :: Section where
  "selflink_section =
     \<lparr>SectionTypeDefinition = [104, 101, 97, 100, 101, 114, 0, 0, 0, 0, 0, 0, 0, 0, 0, 0],
      NextOffset = 13, SectionSize = 76, SectionCheckSum = 0\<rparr>"

section \<open>Word arithmetic\<close>





lemma stb63_shifted:
  "0 \<le> k \<Longrightarrow> k < 2199023255552 \<Longrightarrow>
   signed_take_bit (63::nat) (k - 11644473600) = (k::int) - 11644473600"
  by (rule signed_take_bit_int_eq_self) simp_all

lemma stb63_small:
  "0 \<le> k \<Longrightarrow> k < 2199023255552 \<Longrightarrow> signed_take_bit (63::nat) k = (k::int)"
  by (rule signed_take_bit_int_eq_self) simp_all

text \<open>
  The subtraction is done on \<open>uint64\<close> and may wrap; read as \<open>int64\<close> the result is
  the exact difference, since the quotient is below \<open>2 ^ 41\<close>.
\<close>

lemma sint_ntfs:
  "sint ((w::u64) div 10000000 - 11644473600) = int (unat w div 10000000) - 11644473600"
proof -
  let ?a = "w div 10000000"
  have ua: "unat ?a = unat w div 10000000" by (simp add: unat_div)
  have "unat w < 18446744073709551616" using unsigned_less [of w] by simp
  then have lt: "unat ?a < 2199023255552" using ua by simp
  have un: "uint ?a = int (unat ?a)" by (rule uint_nat)
  have lt': "uint ?a < 2199023255552" using lt un by linarith
  have ge: "0 \<le> uint ?a" by simp
  have sa: "sint ?a = uint ?a"
    unfolding sint_uint using stb63_small [OF ge lt'] by simp
  have "sint (?a - 11644473600) = signed_take_bit 63 (sint ?a - sint (11644473600 :: u64))"
    by (simp add: sint_word_ariths)
  also have "\<dots> = signed_take_bit 63 (uint ?a - 11644473600)"
    using sa by simp
  also have "\<dots> = uint ?a - 11644473600"
    by (rule stb63_shifted [OF ge lt'])
  finally show ?thesis using ua un by simp
qed

section \<open>Concrete runs on the small image\<close>







section \<open>The sector reader\<close>









section \<open>Unparsed disk information\<close>

text \<open>
  C9. While \<open>DiskInfo\<close> is nil, \<open>GetSectorSize\<close>, \<open>GetSectorCount\<close> and \<open>GetChunkSize\<close>
  return 0, and \<open>ReadSector\<close> and \<open>ReadBytes\<close> return an error.
\<close>

theorem nil_DiskInfo:
  "DiskInfo e = None \<Longrightarrow>
   GetSectorSize e = 0 \<and> GetSectorCount e = 0 \<and> GetChunkSize e = 0 \<and>
   ReadSector rt e sectorNumber = Return (e, [], Some ErrNoDiskInfo) \<and>
   ReadBytes rt e offset size' = Return (e, [], Some ErrNoDiskInfo)"
  by (simp add: GetSectorSize_def GetSectorCount_def GetChunkSize_def ReadSector_def ReadBytes_def)

theorem nil_DiskInfo_witness:
  "DiskInfo img_empty = None \<and>
   GetSectorSize img_empty = 0 \<and> GetSectorCount img_empty = 0 \<and> GetChunkSize img_empty = 0 \<and>
   ReadSector rt0 img_empty 7 = Return (img_empty, [], Some ErrNoDiskInfo) \<and>
   ReadBytes rt0 img_empty 512 16 = Return (img_empty, [], Some ErrNoDiskInfo)"
  using nil_DiskInfo [of img_empty rt0 7 512 16] by (simp add: img_empty_def)

section \<open>NTFS timestamps\<close>

text \<open>
  C8. \<open>parseNTFSTime\<close> maps a FILETIME value \<open>t\<close>, read little-endian from at least
  eight bytes, to the Unix time \<open>t / 10000000 - 11644473600\<close>, and \<open>t = 0\<close> to the zero
  time.
\<close>

theorem parseNTFSTime_unix:
  "8 \<le> length data \<Longrightarrow>
   parseNTFSTime data =
     (if le_u64 data = 0 then ZeroTime
      else UnixUTC (int (unat (le_u64 data) div 10000000) - 11644473600))"
  by (simp add: parseNTFSTime_def Let_def sint_ntfs)

theorem parseNTFSTime_unix_witness:
  "8 \<le> length [0, 128, 62, 213, 222, 177, 157, 1 :: byte] \<and>
   parseNTFSTime [0, 128, 62, 213, 222, 177, 157, 1] = UnixUTC 0 \<and>
   parseNTFSTime [0, 0, 0, 0, 0, 0, 0, 0] = ZeroTime"
  using parseNTFSTime_unix [of "[0, 128, 62, 213, 222, 177, 157, 1]"]
    parseNTFSTime_unix [of "[0, 0, 0, 0, 0, 0, 0, 0]"]
  by (simp add: le_u64_def)

section \<open>The chunk cache\<close>

lemma dom_full_cache: "dom full_cache = {k. k < 1024}"
  by (auto simp: full_cache_def dom_def)

lemma full_cache_image: "{k :: u64. k < 1024} = word_of_nat ` {n :: nat. n < 1024}"
proof (rule set_eqI, rule iffI)
  fix k :: u64
  assume "k \<in> {k. k < 1024}"
  then have "unat k < 1024" by (simp add: word_less_nat_alt)
  moreover have "k = word_of_nat (unat k)" by simp
  ultimately show "k \<in> word_of_nat ` {n :: nat. n < 1024}" by blast
next
  fix k :: u64
  assume "k \<in> word_of_nat ` {n :: nat. n < 1024}"
  then obtain n :: nat where n: "n < 1024" and k: "k = word_of_nat n" by auto
  have "unat k = n" unfolding k using n by (intro le_unat_uoi [of _ "1024 :: u64"]) simp
  then show "k \<in> {k. k < 1024}" using n by (simp add: word_less_nat_alt)
qed

lemma inj_small: "inj_on (word_of_nat :: nat \<Rightarrow> u64) {n. n < 1024}"
proof (rule inj_onI)
  fix x y :: nat
  assume x: "x \<in> {n. n < 1024}" and y: "y \<in> {n. n < 1024}"
    and eq: "(word_of_nat x :: u64) = word_of_nat y"
  have ux: "unat (word_of_nat x :: u64) = x"
    using x by (intro le_unat_uoi [of _ "1024 :: u64"]) simp
  have uy: "unat (word_of_nat y :: u64) = y"
    using y by (intro le_unat_uoi [of _ "1024 :: u64"]) simp
  have "unat (word_of_nat x :: u64) = unat (word_of_nat y :: u64)" by (simp only: eq)
  then show "x = y" by (simp only: ux uy)
qed

lemma finite_full_cache: "finite (dom full_cache)"
  by (simp add: dom_full_cache full_cache_image)

lemma card_full_cache: "card (dom full_cache) = 1024"
  by (simp add: dom_full_cache full_cache_image card_image inj_small)

lemma dom_addToCache:
  "dom (addToCache rt c k v) =
     (if MaxCacheSize \<le> card (dom c) then insert k (dom c - {mapRangeFirst rt c})
      else insert k (dom c))"
  by (auto simp: addToCache_def Let_def restrict_map_def dom_def split: if_splits)

lemma addToCache_card:
  assumes fin: "finite (dom c)"
    and bound: "card (dom c) \<le> MaxCacheSize"
    and range: "MaxCacheSize \<le> card (dom c) \<Longrightarrow> mapRangeFirst rt c \<in> dom c"
  shows "card (dom (addToCache rt c chunkNumber chunkData)) \<le> MaxCacheSize \<and>
         dom (addToCache rt c chunkNumber chunkData) =
           (if MaxCacheSize \<le> card (dom c)
            then insert chunkNumber (dom c - {mapRangeFirst rt c})
            else insert chunkNumber (dom c))"
proof (cases "MaxCacheSize \<le> card (dom c)")
  case True
  then have v: "mapRangeFirst rt c \<in> dom c" by (rule range)
  have "card (insert chunkNumber (dom c - {mapRangeFirst rt c})) \<le> Suc (card (dom c - {mapRangeFirst rt c}))"
    using fin by (simp add: card_insert_if)
  also have "\<dots> = card (dom c)"
    using fin v True by (simp add: card_Diff_singleton_if MaxCacheSize_def)
  finally show ?thesis using True bound by (simp add: dom_addToCache)
next
  case False
  then have "card (dom c) < MaxCacheSize" by simp
  moreover have "card (insert chunkNumber (dom c)) \<le> Suc (card (dom c))"
    using fin by (simp add: card_insert_if)
  ultimately show ?thesis using False by (simp add: dom_addToCache)
qed


text \<open>
  The only place that changes the cache is \<open>addToCache\<close>, called by
  \<open>findAndReadChunk\<close> on a miss: a sector read keeps the cache within its capacity.
\<close>

lemma addToCache_finite: "finite (dom c) \<Longrightarrow> finite (dom (addToCache rt c k v))"
  by (simp add: dom_addToCache)

lemma findAndReadChunk_cache:
  assumes "findAndReadChunk rt e c = (e', bs, err)"
  shows "chunkCache e' = chunkCache e \<or> chunkCache e' = addToCache rt (chunkCache e) c bs"
  using assms
  by (auto simp: findAndReadChunk_def split: option.splits sum.splits)

lemma ReadSector_cache_bounded:
  assumes read: "ReadSector rt e n = Return (e', bs, err)"
    and fin: "finite (dom (chunkCache e))"
    and bound: "card (dom (chunkCache e)) \<le> MaxCacheSize"
    and range: "\<And>c. MaxCacheSize \<le> card (dom c) \<Longrightarrow> mapRangeFirst rt c \<in> dom c"
  shows "finite (dom (chunkCache e')) \<and> card (dom (chunkCache e')) \<le> MaxCacheSize"
proof -
  from read obtain c cd where
    "chunkCache e' = chunkCache e \<or> chunkCache e' = addToCache rt (chunkCache e) c cd"
    by (auto simp: ReadSector_def Let_def split: option.splits if_splits prod.splits sum.splits
        dest: findAndReadChunk_cache)
  then show ?thesis
  proof
    assume "chunkCache e' = chunkCache e"
    with fin bound show ?thesis by simp
  next
    assume a: "chunkCache e' = addToCache rt (chunkCache e) c cd"
    have "card (dom (addToCache rt (chunkCache e) c cd)) \<le> MaxCacheSize"
      using addToCache_card [OF fin bound range] by blast
    with a fin show ?thesis by (simp add: addToCache_finite)
  qed
qed

text \<open>
  C6 (amended). The chunk cache never holds more than 1024 chunks: an insertion into a
  cache of at most 1024 entries leaves at most 1024. When the cache is full, the
  insertion first removes one entry, the one the iteration over the map yields first;
  the language leaves that order unspecified, so the evicted entry need not be the
  least recently used one.
\<close>

theorem addToCache_capacity:
  assumes fin: "finite (dom c)"
    and bound: "card (dom c) \<le> MaxCacheSize"
    and range: "MaxCacheSize \<le> card (dom c) \<Longrightarrow> mapRangeFirst rt c \<in> dom c"
  shows "card (dom (addToCache rt c chunkNumber chunkData)) \<le> MaxCacheSize \<and>
         dom (addToCache rt c chunkNumber chunkData) =
           (if MaxCacheSize \<le> card (dom c)
            then insert chunkNumber (dom c - {mapRangeFirst rt c})
            else insert chunkNumber (dom c))"
  using assms by (rule addToCache_card)

theorem addToCache_capacity_witness:
  "finite (dom full_cache) \<and> card (dom full_cache) \<le> MaxCacheSize \<and>
   mapRangeFirst rt_last full_cache \<in> dom full_cache \<and>
   card (dom (addToCache rt_last full_cache 5000 [7])) \<le> MaxCacheSize \<and>
   dom (addToCache rt_last full_cache 5000 [7]) = insert 5000 (dom full_cache - {1023})"
proof -
  have h1: "finite (dom full_cache)" by (rule finite_full_cache)
  have h2: "card (dom full_cache) \<le> MaxCacheSize" by (simp add: card_full_cache MaxCacheSize_def)
  have h3: "mapRangeFirst rt_last full_cache \<in> dom full_cache"
    by (simp add: rt_last_def dom_full_cache)
  have full: "MaxCacheSize \<le> card (dom full_cache)" by (simp add: card_full_cache MaxCacheSize_def)
  have r: "mapRangeFirst rt_last full_cache = 1023" by (simp add: rt_last_def)
  note res = addToCache_capacity [OF h1 h2 h3, of 5000 "[7]"]
  from res have c1: "card (dom (addToCache rt_last full_cache 5000 [7])) \<le> MaxCacheSize"
    by (rule conjunct1)
  from res full r
  have c2: "dom (addToCache rt_last full_cache 5000 [7]) = insert 5000 (dom full_cache - {1023})"
    by (simp only: if_True simp_thms)
  from h1 h2 h3 c1 c2 show ?thesis by blast
qed

text \<open>
  With the chunks 0 to 1023 cached, chunk \<open>k\<close> inserted and last used at time \<open>k\<close>,
  the least recently used entry is chunk 0; an iteration that starts at chunk 1023
  evicts chunk 1023 and keeps chunk 0.
\<close>

theorem eviction_not_lru_counterexample:
  "finite (dom full_cache) \<and> card (dom full_cache) = MaxCacheSize \<and>
   mapRangeFirst rt_last full_cache \<in> dom full_cache \<and>
   spec_lru_victim unat unat full_cache 0 \<and>
   \<not> spec_lru_victim unat unat full_cache 1023 \<and>
   addToCache rt_last full_cache 5000 [7] 1023 = None \<and>
   addToCache rt_last full_cache 5000 [7] 0 = Some []"
proof -
  have "spec_lru_victim unat unat full_cache 0"
    by (auto simp: spec_lru_victim_def dom_full_cache unat_gt_0)
  moreover have "\<not> spec_lru_victim unat unat full_cache 1023"
  proof -
    have "(0 :: u64) \<in> dom full_cache" by (simp add: dom_full_cache)
    moreover have "(0 :: u64) \<noteq> 1023" by simp
    moreover have "\<not> (unat (1023 :: u64) < unat (0 :: u64) \<or>
      (unat (1023 :: u64) = unat (0 :: u64) \<and> unat (1023 :: u64) < unat (0 :: u64)))" by simp
    ultimately show ?thesis unfolding spec_lru_victim_def by blast
  qed
  moreover have "addToCache rt_last full_cache 5000 [7] 1023 = None"
    by (simp add: addToCache_def card_full_cache MaxCacheSize_def rt_last_def restrict_map_def)
  moreover have "addToCache rt_last full_cache 5000 [7] 0 = Some []"
    by (simp add: addToCache_def card_full_cache MaxCacheSize_def rt_last_def restrict_map_def
        full_cache_def)
  moreover have "mapRangeFirst rt_last full_cache \<in> dom full_cache"
    by (simp add: rt_last_def dom_full_cache)
  moreover have "card (dom full_cache) = MaxCacheSize"
    by (simp add: card_full_cache MaxCacheSize_def)
  ultimately show ?thesis using finite_full_cache by blast
qed

section \<open>Reads beyond the sector count and missing chunks\<close>







section \<open>The volume section\<close>






section \<open>Table sections\<close>

lemma readEntries_valid:
  "readEntries d posOf fileSize n i entries = Inr es \<Longrightarrow>
   \<forall>e \<in> set entries. isValidTableEntry e fileSize \<Longrightarrow>
   \<forall>e \<in> set es. isValidTableEntry e fileSize"
proof (induction d posOf fileSize n i entries rule: readEntries.induct)
  case (1 d posOf fileSize n i entries)
  show ?case
  proof (cases "i < n")
    case False
    with "1.prems" show ?thesis by (simp add: readEntries.simps [of d posOf fileSize n i])
  next
    case True
    show ?thesis
    proof (cases "readEntry d (posOf i)")
      case None
      with True "1.prems" show ?thesis by (simp add: readEntries.simps [of d posOf fileSize n i])
    next
      case (Some entry)
      let ?acc = "if isValidTableEntry entry fileSize then entries @ [entry] else entries"
      have rec: "readEntries d posOf fileSize n (i + 1) ?acc = Inr es"
        using True Some "1.prems"(1) by (simp add: readEntries.simps [of d posOf fileSize n i])
      have acc: "\<forall>e \<in> set ?acc. isValidTableEntry e fileSize" using "1.prems"(2) by simp
      show ?thesis by (rule "1.IH" [OF True Some rec acc])
    qed
  qed
qed

lemma ParseTable_plain_valid:
  "ParseTable_plain f currentPos nb = Inr t \<Longrightarrow>
   \<forall>e \<in> set (Entries t). isValidTableEntry e (length f)"
  unfolding ParseTable_plain_def
  by (auto split: option.splits sum.splits dest: readEntries_valid)

lemma ParseTable_capped_valid:
  "ParseTable_capped f currentPos m = Inr t \<Longrightarrow>
   \<forall>e \<in> set (Entries t). isValidTableEntry e (length f)"
  unfolding ParseTable_capped_def
  by (auto split: option.splits sum.splits dest: readEntries_valid)

lemma ParseTable_inflated_valid:
  "ParseTable_inflated d fileSize = Inr t \<Longrightarrow>
   \<forall>e \<in> set (Entries t). isValidTableEntry e fileSize"
  unfolding ParseTable_inflated_def
  by (auto split: option.splits sum.splits dest: readEntries_valid)

lemma ParseTable_entries_valid:
  "ParseTable rt f currentPos section = Inr t \<Longrightarrow>
   \<forall>e \<in> set (Entries t). isValidTableEntry e (length f)"
  unfolding ParseTable_def Let_def
  by (auto split: if_splits option.splits
      dest: ParseTable_plain_valid ParseTable_capped_valid ParseTable_inflated_valid)

lemma le_u32_take: "le_u32 (take 4 bs) = le_u32 bs"
  by (simp add: le_u32_def)

lemma le_u64_take: "le_u64 (take 8 bs) = le_u64 bs"
  by (simp add: le_u64_def)

lemma unat_Suc_word32: "i < (n :: u32) \<Longrightarrow> unat (i + 1) = Suc (unat i)"
proof -
  assume lt: "i < n"
  have "unat i < unat n" using lt by (simp add: word_less_nat_alt)
  moreover have "unat n < 2 ^ LENGTH(32)" by (rule unsigned_less)
  ultimately have "unat i + unat (1 :: u32) < 2 ^ LENGTH(32)" by simp
  then have "unat (i + 1) = unat i + unat (1 :: u32)" by (simp only: unat_add_lem)
  then show ?thesis by simp
qed

lemma readEntries_filter_map:
  "\<forall>k < unat n. readEntry d (posOf (word_of_nat k)) = Some (g k) \<Longrightarrow> i \<le> n \<Longrightarrow>
   readEntries d posOf fileSize n i entries =
     Inr (entries @ filter (\<lambda>e. isValidTableEntry e fileSize) (map g [unat i..<unat n]))"
proof (induction d posOf fileSize n i entries rule: readEntries.induct)
  case (1 d posOf fileSize n i entries)
  show ?case
  proof (cases "i < n")
    case False
    with "1.prems"(2) have "i = n" by simp
    then show ?thesis by (simp add: readEntries.simps [of d posOf fileSize n n])
  next
    case True
    then have lt: "unat i < unat n" by (simp add: word_less_nat_alt)
    have rd: "readEntry d (posOf i) = Some (g (unat i))"
    proof -
      have "readEntry d (posOf (word_of_nat (unat i))) = Some (g (unat i))"
        using "1.prems"(1) lt by blast
      then show ?thesis by simp
    qed
    have le: "i + 1 \<le> n" using True by (rule inc_le)
    have su: "unat (i + 1) = Suc (unat i)" using True by (rule unat_Suc_word32)
    let ?acc = "if isValidTableEntry (g (unat i)) fileSize then entries @ [g (unat i)] else entries"
    have "readEntries d posOf fileSize n (i + 1) ?acc =
        Inr (?acc @ filter (\<lambda>e. isValidTableEntry e fileSize) (map g [unat (i + 1)..<unat n]))"
      by (rule "1.IH" [OF True rd "1.prems"(1) le])
    moreover have "[unat i..<unat n] = unat i # [Suc (unat i)..<unat n]"
      using lt by (rule upt_conv_Cons)
    ultimately show ?thesis using True rd su
      by (simp add: readEntries.simps [of d posOf fileSize n i])
  qed
qed

lemma readEntry_at:
  "p + 16 \<le> length f \<Longrightarrow>
   readEntry f p = Some \<lparr>ChunkOffset = le_u64 (drop p f), ChunkSize = le_u32 (drop (p + 8) f),
                         ChunkFlags = le_u32 (drop (p + 12) f)\<rparr>"
  by (simp add: readEntry_def readFull_def le_u32_take le_u64_take)

lemma filePos_small: "k < 2 ^ 28 \<Longrightarrow> filePos currentPos (word_of_nat k) = currentPos + 24 + 16 * k"
proof -
  assume k: "k < 2 ^ 28"
  have uk: "unat (word_of_nat k :: u32) = k"
    using k by (intro le_unat_uoi [of _ "2 ^ 28 :: u32"]) simp
  have "unat (word_of_nat k :: u32) * unat (16 :: u32) < 2 ^ LENGTH(32)" using k uk by simp
  then have "unat (word_of_nat k * 16 :: u32) = unat (word_of_nat k :: u32) * unat (16 :: u32)"
    by (simp only: unat_mult_lem)
  then show ?thesis using uk by (simp add: filePos_def)
qed

lemma ParseTable_plain_layout:
  assumes size: "\<not> SectionSize section < 24"
    and count: "\<not> le_u32 (drop currentPos f) > ucast ((SectionSize section - 24) div 16)"
    and small: "unat (le_u32 (drop currentPos f)) < 2 ^ 28"
    and inside: "currentPos + 24 + 16 * unat (le_u32 (drop currentPos f)) \<le> length f"
  shows "ParseTable rt f currentPos section =
     Inr \<lparr>EntryNumber = le_u32 (drop currentPos f),
          TableCheckSum = le_u32 (drop (currentPos + 20) f),
          Entries = filter (\<lambda>e. isValidTableEntry e (length f))
            (map (\<lambda>k. \<lparr>ChunkOffset = le_u64 (drop (currentPos + 24 + 16 * k) f),
                        ChunkSize = le_u32 (drop (currentPos + 24 + 16 * k + 8) f),
                        ChunkFlags = le_u32 (drop (currentPos + 24 + 16 * k + 12) f)\<rparr>)
               [0..<unat (le_u32 (drop currentPos f))])\<rparr>"
proof -
  let ?n = "le_u32 (drop currentPos f)"
  let ?g = "\<lambda>k. \<lparr>ChunkOffset = le_u64 (drop (currentPos + 24 + 16 * k) f),
                  ChunkSize = le_u32 (drop (currentPos + 24 + 16 * k + 8) f),
                  ChunkFlags = le_u32 (drop (currentPos + 24 + 16 * k + 12) f)\<rparr>"
  have r4: "readFull f currentPos 4 = Some (take 4 (drop currentPos f))"
    using inside by (simp add: readFull_def)
  have r16: "readFull f (currentPos + 4) 16 = Some (take 16 (drop (currentPos + 4) f))"
    using inside by (simp add: readFull_def)
  have rc: "readFull f (currentPos + 20) 4 = Some (take 4 (drop (currentPos + 20) f))"
    using inside by (simp add: readFull_def)
  have "\<forall>k < unat ?n. readEntry f (filePos currentPos (word_of_nat k)) = Some (?g k)"
  proof (intro allI impI)
    fix k assume k: "k < unat ?n"
    then have "k < 2 ^ 28" using small by simp
    then have fp: "filePos currentPos (word_of_nat k) = currentPos + 24 + 16 * k"
      by (rule filePos_small)
    have "currentPos + 24 + 16 * k + 16 \<le> length f" using k inside by simp
    then show "readEntry f (filePos currentPos (word_of_nat k)) = Some (?g k)"
      unfolding fp by (rule readEntry_at)
  qed
  then have "readEntries f (filePos currentPos) (length f) ?n 0 [] =
      Inr ([] @ filter (\<lambda>e. isValidTableEntry e (length f)) (map ?g [unat (0 :: u32)..<unat ?n]))"
    by (rule readEntries_filter_map) simp
  then have re: "readEntries f (filePos currentPos) (length f) ?n 0 [] =
      Inr (filter (\<lambda>e. isValidTableEntry e (length f)) (map ?g [0..<unat ?n]))"
    by simp
  have "ParseTable_plain f currentPos (take 4 (drop currentPos f)) =
     Inr \<lparr>EntryNumber = ?n, TableCheckSum = le_u32 (drop (currentPos + 20) f),
          Entries = filter (\<lambda>e. isValidTableEntry e (length f)) (map ?g [0..<unat ?n])\<rparr>"
    by (simp add: ParseTable_plain_def r16 rc le_u32_take re)
  then show ?thesis using size count
    by (simp add: ParseTable_def Let_def r4 le_u32_take)
qed




subsection \<open>Concrete tables\<close>

lemma tbl0_file_length: "length tbl0_file = 120" by (simp add: tbl0_file_def)

lemma upt_two: "[0..<2] = [0, 1 :: nat]" by code_simp

lemmas table_eval = isValidTableEntry_def word_le_nat_alt word_less_nat_alt


lemma tbl0_file_parsed:
  "ParseTable rt tbl0_file 0 tbl_section =
     Inr \<lparr>EntryNumber = 2, TableCheckSum = 0,
          Entries = [\<lparr>ChunkOffset = 100, ChunkSize = 7, ChunkFlags = 0\<rparr>]\<rparr>"
proof -
  have n: "le_u32 (drop 0 tbl0_file) = 2" by (simp add: tbl0_file_def le_u32_def)
  have h: "\<not> SectionSize tbl_section < 24"
    "\<not> le_u32 (drop 0 tbl0_file) > ucast ((SectionSize tbl_section - 24) div 16)"
    "unat (le_u32 (drop 0 tbl0_file)) < 2 ^ 28"
    "0 + 24 + 16 * unat (le_u32 (drop 0 tbl0_file)) \<le> length tbl0_file"
    unfolding n by (simp_all add: tbl_section_def tbl0_file_length word_less_nat_alt)
  show ?thesis
    unfolding ParseTable_plain_layout [OF h] n tbl0_file_length
    by (simp add: tbl0_file_def upt_two le_u32_def le_u64_def) (simp add: table_eval)
qed


subsection \<open>The layout of table entries and the entry with offset 0\<close>




text \<open>
  C5 (amended). The table-entry validation rejects an entry whose chunk offset field
  is 0 (chunk offsets are used as offsets into the segment file, where offset 0 is
  the file header); such an entry is left out of the parsed table, so every entry of
  a parsed table has a chunk offset other than 0.
\<close>

theorem zero_offset_entry_rejected:
  "(ChunkOffset entry = 0 \<longrightarrow> \<not> isValidTableEntry entry fileSize) \<and>
   (ParseTable rt f currentPos sect = Inr t \<longrightarrow>
      (\<forall>e \<in> set (Entries t). ChunkOffset e \<noteq> 0))"
proof (intro conjI impI ballI)
  assume "ChunkOffset entry = 0"
  then show "\<not> isValidTableEntry entry fileSize" by (simp add: isValidTableEntry_def)
next
  fix e
  assume "ParseTable rt f currentPos sect = Inr t" and "e \<in> set (Entries t)"
  then have "isValidTableEntry e (length f)" using ParseTable_entries_valid by blast
  then show "ChunkOffset e \<noteq> 0" by (auto simp: isValidTableEntry_def)
qed

theorem zero_offset_entry_rejected_witness:
  "ChunkOffset \<lparr>ChunkOffset = 0, ChunkSize = 5, ChunkFlags = 1\<rparr> = 0 \<and>
   \<not> isValidTableEntry \<lparr>ChunkOffset = 0, ChunkSize = 5, ChunkFlags = 1\<rparr> 120 \<and>
   ParseTable rt0 tbl0_file 0 tbl_section =
     Inr \<lparr>EntryNumber = 2, TableCheckSum = 0,
          Entries = [\<lparr>ChunkOffset = 100, ChunkSize = 7, ChunkFlags = 0\<rparr>]\<rparr> \<and>
   ChunkOffset \<lparr>ChunkOffset = 100, ChunkSize = 7, ChunkFlags = 0\<rparr> \<noteq> 0"
proof -
  note T = zero_offset_entry_rejected [where entry = "\<lparr>ChunkOffset = 0, ChunkSize = 5, ChunkFlags = 1\<rparr>"
      and fileSize = 120 and rt = rt0 and f = tbl0_file and currentPos = 0
      and sect = tbl_section
      and t = "\<lparr>EntryNumber = 2, TableCheckSum = 0,
          Entries = [\<lparr>ChunkOffset = 100, ChunkSize = 7, ChunkFlags = 0\<rparr>]\<rparr>"]
  have z: "ChunkOffset \<lparr>ChunkOffset = 0, ChunkSize = 5, ChunkFlags = 1\<rparr> = 0" by simp
  have p: "ParseTable rt0 tbl0_file 0 tbl_section =
     Inr \<lparr>EntryNumber = 2, TableCheckSum = 0,
          Entries = [\<lparr>ChunkOffset = 100, ChunkSize = 7, ChunkFlags = 0\<rparr>]\<rparr>"
    by (rule tbl0_file_parsed)
  from T z have a: "\<not> isValidTableEntry \<lparr>ChunkOffset = 0, ChunkSize = 5, ChunkFlags = 1\<rparr> 120"
    by blast
  from T p have b: "ChunkOffset \<lparr>ChunkOffset = 100, ChunkSize = 7, ChunkFlags = 0\<rparr> \<noteq> 0"
    by simp
  from z a p b show ?thesis by blast
qed

text \<open>
  The first entry of the table of \<open>tbl0_file\<close> has the chunk offset 0 and is otherwise
  in range (5 bytes within a file of 120); it is not valid, and the parsed table
  holds the second entry only.
\<close>

theorem zero_offset_entry_counterexample:
  "readEntry tbl0_file 24 = Some \<lparr>ChunkOffset = 0, ChunkSize = 5, ChunkFlags = 1\<rparr> \<and>
   \<not> isValidTableEntry \<lparr>ChunkOffset = 0, ChunkSize = 5, ChunkFlags = 1\<rparr> (length tbl0_file) \<and>
   ParseTable rt0 tbl0_file 0 tbl_section =
     Inr \<lparr>EntryNumber = 2, TableCheckSum = 0,
          Entries = [\<lparr>ChunkOffset = 100, ChunkSize = 7, ChunkFlags = 0\<rparr>]\<rparr>"
proof -
  have "readEntry tbl0_file 24 = Some \<lparr>ChunkOffset = 0, ChunkSize = 5, ChunkFlags = 1\<rparr>"
    by (simp add: readEntry_def readFull_def tbl0_file_def le_u32_def le_u64_def)
  moreover have "\<not> isValidTableEntry \<lparr>ChunkOffset = 0, ChunkSize = 5, ChunkFlags = 1\<rparr> (length tbl0_file)"
    by (simp add: isValidTableEntry_def)
  ultimately show ?thesis using tbl0_file_parsed [of rt0] by blast
qed

section \<open>The section scanners\<close>

text \<open>
  The loop of \<open>Parse\<close> is a total function: each round moves the last offset
  strictly up and keeps it below the size of the file. So it reads no more sections
  than the file has bytes beyond the last offset.
\<close>

lemma parseByType_Sections:
  "parseByType rt f p s st = Return (st', d) \<Longrightarrow> Sections (image st') = Sections (image st)"
  unfolding parseByType_def Let_def
  by (auto split: if_splits go.splits sum.splits)

lemma scanSections_bound:
  "scanSections rt f sec seen lastOffset st = Return (Inr st') \<Longrightarrow>
   length (Sections (image st')) \<le>
     length (Sections (image st)) + (unat (word_of_nat (length f) :: u64) - unat lastOffset)"
proof (induction rt f sec seen lastOffset st rule: scanSections.induct)
  case (1 rt f sec seen lastOffset st)
  let ?next = "NextOffset sec"
  let ?w = "word_of_nat (length f) :: u64"
  show ?case
  proof (cases "?next \<in> seen \<or> ?next \<le> lastOffset \<or> ?next \<ge> ?w")
    case True
    with "1.prems" have "st' = st"
      by (subst (asm) scanSections.simps) (auto split: if_splits)
    then show ?thesis by simp
  next
    case False
    then have c: "?next \<notin> seen" "\<not> ?next \<le> lastOffset" "\<not> ?next \<ge> ?w" by simp_all
    then have lt: "unat lastOffset < unat ?next" "unat ?next < unat ?w"
      by (simp_all add: word_le_nat_alt not_le)
    show ?thesis
    proof (cases "ReadSection f (sint ?next)")
      case (Inl err)
      with c "1.prems" show ?thesis by (subst (asm) scanSections.simps) simp
    next
      case (Inr s)
      let ?st1 = "st\<lparr>image := (image st)\<lparr>Sections := Sections (image st) @ [s]\<rparr>\<rparr>"
      show ?thesis
      proof (cases "parseByType rt f (nat (sint ?next) + 76) s ?st1")
        case Panic
        with c Inr "1.prems" show ?thesis by (subst (asm) scanSections.simps) simp
      next
        case (Return x)
        obtain st2 foundDone where x: "x = (st2, foundDone)" by (cases x)
        have secs: "length (Sections (image st2)) = Suc (length (Sections (image st)))"
          using Return x by (auto dest: parseByType_Sections)
        show ?thesis
        proof (cases "foundDone \<or> NextOffset s = 0")
          case True
          with c Inr Return x "1.prems" have "st' = st2"
            by (subst (asm) scanSections.simps) auto
          with secs lt show ?thesis by simp
        next
          case False
          with c Inr Return x "1.prems"
          have rec: "scanSections rt f s (insert ?next seen) ?next st2 = Return (Inr st')"
            by (subst (asm) scanSections.simps) simp
          have "length (Sections (image st')) \<le>
              length (Sections (image st2)) + (unat ?w - unat ?next)"
            using "1.IH" [OF c Inr Return x [symmetric] False rec] .
          with secs lt show ?thesis by simp
        qed
      qed
    qed
  qed
qed

text \<open>
  On the segment whose only section names its own offset as the next one, \<open>Parse\<close>
  stops at the offset seen before and reports that no disk information was found.
\<close>

lemma selflink_Parse:
  "Parse rt (img_empty\<lparr>file' := selflink_file\<rparr>) = Return (Inl ErrNoDisk)"
proof -
  have rs: "ReadSection selflink_file 13 = Inr selflink_section"
    by (simp add: ReadSection_def readFull_def selflink_file_def decodeSection_def
        selflink_section_def le_u64_def le_u32_def Let_def sectionTypeOf_def trimRightNul_def
        knownSectionTypes_def ascii_def word_le_nat_alt word_less_nat_alt)
  have hd: "readFull selflink_file 0 13 = Some (take 13 selflink_file)"
    by (simp add: readFull_def selflink_file_def)
  have sig: "take 8 selflink_file = EVFSignature"
    by (simp add: selflink_file_def EVFSignature_def)
  have sc: "scanSections rt selflink_file selflink_section {13} 13 st = Return (Inr st)" for st
    by (subst scanSections.simps) (simp add: selflink_section_def)
  show ?thesis
    by (simp add: Parse_def Let_def hd sig rs sc img_empty_def)
qed








end
